theory Spec2Isabelle
  imports Complex_Main "HOL-Library.AList"
begin

section \<open>The reproduction scheme of neat-python (\<^verbatim>\<open>neat/reproduction.py\<close>)\<close>

text \<open>
  The development embeds \<^verbatim>\<open>DefaultReproduction\<close> of \<^verbatim>\<open>neat/reproduction.py\<close>.
  Conventions of the embedding:
  \<^item> Python 3 semantics: \<^verbatim>\<open>/\<close> is true division, \<^verbatim>\<open>round\<close> rounds a tie to the even
    neighbour and returns an integer, \<^verbatim>\<open>math.ceil\<close> returns an integer.
  \<^item> Python's floats are read as exact real numbers (\<open>real\<close>): \<^verbatim>\<open>1.1\<close> is \<open>11/10\<close>
    and \<^verbatim>\<open>0.9\<close> is \<open>9/10\<close>. The rounding error of binary floating point is outside
    the model.
  \<^item> A dictionary is an association list in insertion order; \<^verbatim>\<open>d[k] = v\<close> is
    \<open>AList.update k v d\<close> (overwrite in place, or append a new key).
  \<^item> An exception is the left injection of a sum; the state left behind by a raising
    call is not modelled.
  \<^item> The \<^verbatim>\<open>while\<close> loop is a \<^theory_text>\<open>partial_function\<close> in the option monad: \<open>None\<close>
    stands for a loop that does not return.
\<close>

subsection \<open>Data\<close>

datatype error = ZeroDivisionError | IndexError | TypeError

text \<open>
  A genome is opaque to this module apart from its numeric \<^verbatim>\<open>fitness\<close>; \<open>genes\<close> stands
  for the rest of the object.
\<close>

record genome =
  fitness :: real
  genes :: "nat list"

text \<open>A species: \<^verbatim>\<open>s.members\<close>, a dictionary from genome id to genome.\<close>

record species =
  members :: "(nat \<times> genome) list"

text \<open>What the reporters are told, in order.\<close>

datatype report =
    Species_stagnant species
  | Info_average real
  | Info_spawn_amounts "int list"
  | Info_species_fitness "real list"

text \<open>
  The fields of a \<^verbatim>\<open>DefaultReproduction\<close> object. \<open>genome_indexer\<close> is the next
  identifier the indexer will issue (\<^verbatim>\<open>Indexer(1)\<close> starts at 1); \<open>reporters\<close> is the
  log of what \<^verbatim>\<open>self.reporters\<close> has received; \<open>rng\<close> is the number of draws made from
  the random source so far.
\<close>

record reproduction =
  elitism :: int
  survival_threshold :: real
  reporters :: "report list"
  genome_indexer :: nat
  ancestors :: "(nat \<times> nat list) list"
  rng :: nat

text \<open>
  The collaborators the module calls but does not define: the stagnation tracker
  (\<^verbatim>\<open>self.stagnation.update\<close>, which yields a triple of species id, species and stagnation
  flag for every species), the genome operations \<^verbatim>\<open>crossover\<close> and \<^verbatim>\<open>mutate\<close>, and the
  stream of numbers behind \<^verbatim>\<open>random.choice\<close>.
\<close>

record env =
  stagnation_update :: "(nat \<times> species) list \<Rightarrow> (nat \<times> species \<times> bool) list"
  crossover :: "genome \<Rightarrow> genome \<Rightarrow> nat \<Rightarrow> genome"
  mutate :: "genome \<Rightarrow> genome"
  random_draw :: "nat \<Rightarrow> nat"

text \<open>The result of \<^verbatim>\<open>reproduce\<close>: the object, \<^verbatim>\<open>species.species\<close> and the returned population.\<close>

record generation =
  self :: reproduction
  species_set :: "(nat \<times> species) list"
  population :: "(nat \<times> genome) list"

subsection \<open>Python primitives\<close>

definition py_div :: "real \<Rightarrow> real \<Rightarrow> error + real" where
  "py_div a b = (if b = 0 then Inl ZeroDivisionError else Inr (a / b))"

text \<open>\<^verbatim>\<open>round(x)\<close> of Python 3: to the nearest integer, a tie to the even one.\<close>

definition py_round :: "real \<Rightarrow> int" where
  "py_round x =
     (let f = \<lfloor>x\<rfloor>; d = x - of_int f
      in if d < 1 / 2 then f
         else if 1 / 2 < d then f + 1
         else if even f then f else f + 1)"

text \<open>
  \<^verbatim>\<open>random.choice(seq)\<close>: raises \<^verbatim>\<open>IndexError\<close> on an empty sequence, and otherwise
  returns the element the next draw selects.
\<close>

definition random_choice :: "env \<Rightarrow> 'a list \<Rightarrow> reproduction \<Rightarrow> error + ('a \<times> reproduction)" where
  "random_choice e xs st =
     (if xs = [] then Inl IndexError
      else Inr (xs ! (random_draw e (rng st) mod length xs), st\<lparr>rng := rng st + 1\<rparr>))"

text \<open>
  \<^verbatim>\<open>old_members.sort(reverse=True, key=lambda x: x[1].fitness)\<close>: Python's sort is stable,
  also with \<^verbatim>\<open>reverse=True\<close>, so members of equal fitness keep their order. \<open>sort_key\<close>
  is a stable insertion sort; the key is negated for the descending order.
\<close>

definition sort_members :: "(nat \<times> genome) list \<Rightarrow> (nat \<times> genome) list" where
  "sort_members ms = sort_key (\<lambda>x. - fitness (snd x)) ms"

subsection \<open>Construction\<close>

text \<open>
  A configuration value as \<^verbatim>\<open>params.get\<close> returns it: absent (\<^verbatim>\<open>None\<close>), an integer or
  a float; a numeric text is represented by the number it denotes. \<^verbatim>\<open>int\<close> truncates a
  float towards zero; both conversions raise \<^verbatim>\<open>TypeError\<close> on \<^verbatim>\<open>None\<close>.
\<close>

datatype cfg_value = CNone | CInt int | CFloat real

fun py_int :: "cfg_value \<Rightarrow> error + int" where
  "py_int CNone = Inl TypeError"
| "py_int (CInt i) = Inr i"
| "py_int (CFloat r) = Inr (if 0 \<le> r then \<lfloor>r\<rfloor> else \<lceil>r\<rceil>)"

fun py_float :: "cfg_value \<Rightarrow> error + real" where
  "py_float CNone = Inl TypeError"
| "py_float (CInt i) = Inr (of_int i)"
| "py_float (CFloat r) = Inr r"

text \<open>\<^verbatim>\<open>DefaultReproduction.__init__\<close>, lines 19 to 28.\<close>

definition init :: "(string \<Rightarrow> cfg_value) \<Rightarrow> report list \<Rightarrow> error + reproduction" where
  "init params reps =
     (case py_int (params ''elitism'') of
        Inl err \<Rightarrow> Inl err
      | Inr el \<Rightarrow>
         (case py_float (params ''survival_threshold'') of
            Inl err \<Rightarrow> Inl err
          | Inr thr \<Rightarrow>
              Inr \<lparr>elitism = el, survival_threshold = thr, reporters = reps,
                   genome_indexer = 1, ancestors = [], rng = 0\<rparr>))"

subsection \<open>\<^verbatim>\<open>reproduce\<close>: stagnation filter and adjusted fitness (lines 45 to 67)\<close>

text \<open>Lines 55 to 58: the loop that accumulates \<^verbatim>\<open>species_sum\<close>.\<close>

fun species_sum :: "species \<Rightarrow> (nat \<times> genome) list \<Rightarrow> real \<Rightarrow> error + real" where
  "species_sum s [] acc = Inr acc"
| "species_sum s (im # rest) acc =
     (case py_div (fitness (snd im)) (of_nat (length (members s))) of
        Inl err \<Rightarrow> Inl err
      | Inr af \<Rightarrow> species_sum s rest (acc + af))"

text \<open>Lines 55 to 60: \<^verbatim>\<open>sfitness\<close> of one species.\<close>

definition adjusted_fitness :: "species \<Rightarrow> error + real" where
  "adjusted_fitness s =
     (case species_sum s (members s) 0 of
        Inl err \<Rightarrow> Inl err
      | Inr ssum \<Rightarrow> py_div ssum (of_nat (length (members s))))"

text \<open>
  Lines 45 to 62: the loop over the tracker's triples. The accumulator holds the
  reporter log, \<^verbatim>\<open>num_remaining\<close>, \<^verbatim>\<open>species_fitness\<close> and \<^verbatim>\<open>avg_adjusted_fitness\<close>.
\<close>

type_synonym filtered = "report list \<times> nat \<times> (nat \<times> species \<times> real) list \<times> real"

fun filter_stagnated :: "(nat \<times> species \<times> bool) list \<Rightarrow> filtered \<Rightarrow> error + filtered" where
  "filter_stagnated [] acc = Inr acc"
| "filter_stagnated ((sid, s, stagnant) # rest) (reps, num_remaining, species_fitness, avg) =
     (if stagnant then
        filter_stagnated rest (reps @ [Species_stagnant s], num_remaining, species_fitness, avg)
      else
        (case adjusted_fitness s of
           Inl err \<Rightarrow> Inl err
         | Inr sfitness \<Rightarrow>
             filter_stagnated rest
               (reps, num_remaining + 1, species_fitness @ [(sid, s, sfitness)], avg + sfitness)))"

subsection \<open>\<^verbatim>\<open>reproduce\<close>: spawn amounts (lines 69 to 88)\<close>

text \<open>Lines 75 to 79: the raw spawn weight of one species.\<close>

definition raw_spawn :: "real \<Rightarrow> nat \<times> species \<times> real \<Rightarrow> real" where
  "raw_spawn avg x =
     (case x of (sid, s, sfitness) \<Rightarrow>
        if avg < sfitness then of_nat (length (members s)) * (11 / 10)
        else of_nat (length (members s)) * (9 / 10))"

text \<open>
  Lines 69 to 88: the average, the raw weights, the normalisation and the three reports.
  The result is the log and the rounded \<^verbatim>\<open>spawn_amounts\<close>.
\<close>

definition spawn_amounts ::
  "report list \<Rightarrow> (nat \<times> species \<times> real) list \<Rightarrow> real \<Rightarrow> int \<Rightarrow> error + (report list \<times> int list)" where
  "spawn_amounts reps species_fitness avg_sum pop_size =
     (case py_div avg_sum (of_nat (length species_fitness)) of
        Inl err \<Rightarrow> Inl err
      | Inr avg \<Rightarrow>
         (let raw = map (raw_spawn avg) species_fitness;
              total_spawn = sum_list raw
          in case py_div (of_int pop_size) total_spawn of
               Inl err \<Rightarrow> Inl err
             | Inr norm' \<Rightarrow>
                 (let amounts = map (\<lambda>n. py_round (n * norm')) raw
                  in Inr (reps @ [Info_average avg, Info_spawn_amounts amounts,
                                 Info_species_fitness (map (\<lambda>x. snd (snd x)) species_fitness)],
                          amounts))))"

subsection \<open>\<^verbatim>\<open>reproduce\<close>: elites and offspring (lines 90 to 135)\<close>

text \<open>Lines 109 to 111: every elite is stored under its own id, and counts against \<^verbatim>\<open>spawn\<close>.\<close>

fun transfer_elites ::
  "(nat \<times> genome) list \<Rightarrow> (nat \<times> genome) list \<Rightarrow> int \<Rightarrow> (nat \<times> genome) list \<times> int" where
  "transfer_elites [] new_population spawn = (new_population, spawn)"
| "transfer_elites (im # rest) new_population spawn =
     transfer_elites rest (AList.update (fst im) (snd im) new_population) (spawn - 1)"

text \<open>Lines 117 to 120: the members that may become parents.\<close>

definition breeding_pool :: "reproduction \<Rightarrow> (nat \<times> genome) list \<Rightarrow> (nat \<times> genome) list" where
  "breeding_pool st old_members =
     (let repro_cutoff = \<lceil>survival_threshold st * of_nat (length old_members)\<rceil>;
          repro_cutoff = max repro_cutoff 2
      in take (nat repro_cutoff) old_members)"

text \<open>
  Modelled from the spec: \<^verbatim>\<open>neat.indexer.Indexer\<close> is not among the sources. The
  specification describes it as issuing "globally unique, monotonically increasing
  identifiers", \<^verbatim>\<open>Indexer.next() -> integer\<close>, starting from a seed. It is a counter:
  \<^verbatim>\<open>get_next\<close> returns the next identifier and advances the counter by one.
\<close>

definition get_next :: "reproduction \<Rightarrow> nat \<times> reproduction" where
  "get_next st = (genome_indexer st, st\<lparr>genome_indexer := genome_indexer st + 1\<rparr>)"

text \<open>Lines 126 to 135: one pass through the body of the \<^verbatim>\<open>while\<close> loop.\<close>

definition breed ::
  "env \<Rightarrow> (nat \<times> genome) list \<Rightarrow> reproduction \<times> (nat \<times> genome) list
     \<Rightarrow> error + (reproduction \<times> (nat \<times> genome) list)" where
  "breed e pool acc =
     (case acc of (st, new_population) \<Rightarrow>
       (case random_choice e pool st of
          Inl err \<Rightarrow> Inl err
        | Inr (p1, st1) \<Rightarrow>
           (case random_choice e pool st1 of
              Inl err \<Rightarrow> Inl err
            | Inr (p2, st2) \<Rightarrow>
               (let (gid, st3) = get_next st2;
                    child = mutate e (crossover e (snd p1) (snd p2) gid)
                in Inr (st3\<lparr>ancestors := AList.update gid [fst p1, fst p2] (ancestors st3)\<rparr>,
                        AList.update gid child new_population)))))"

text \<open>Lines 123 to 135: \<^verbatim>\<open>while spawn > 0\<close>.\<close>

partial_function (option) breed_while ::
  "env \<Rightarrow> (nat \<times> genome) list \<Rightarrow> int \<Rightarrow> reproduction \<times> (nat \<times> genome) list
     \<Rightarrow> (error + (reproduction \<times> (nat \<times> genome) list)) option" where
  "breed_while e pool spawn acc =
     (if 0 < spawn then
        (case breed e pool acc of
           Inl err \<Rightarrow> Some (Inl err)
         | Inr acc' \<Rightarrow> breed_while e pool (spawn - 1) acc')
      else Some (Inr acc))"

text \<open>Lines 93 to 135: the body of the loop over the species, for one species.\<close>

definition reproduce_species ::
  "env \<Rightarrow> int \<times> nat \<times> species \<times> real \<Rightarrow> generation \<Rightarrow> (error + generation) option" where
  "reproduce_species e x g =
     (case x of (spawn0, sid, s, sfitness) \<Rightarrow>
       (let spawn = max spawn0 (elitism (self g))
        in if spawn \<le> 0 then Some (Inr g)
           else
            (let old_members = members s;
                 species' = AList.update sid (s\<lparr>members := []\<rparr>) (species_set g);
                 old_members = sort_members old_members;
                 (new_population, spawn) =
                    (if 0 < elitism (self g)
                     then transfer_elites (take (nat (elitism (self g))) old_members)
                            (population g) spawn
                     else (population g, spawn))
             in if spawn \<le> 0
                then Some (Inr (g\<lparr>species_set := species', population := new_population\<rparr>))
                else
                 (case breed_while e (breeding_pool (self g) old_members) spawn
                         (self g, new_population) of
                    None \<Rightarrow> None
                  | Some (Inl err) \<Rightarrow> Some (Inl err)
                  | Some (Inr (st', new_population')) \<Rightarrow>
                      Some (Inr \<lparr>self = st', species_set = species',
                                 population = new_population'\<rparr>)))))"

text \<open>Line 92: the loop over \<^verbatim>\<open>zip(spawn_amounts, species_fitness)\<close>.\<close>

fun reproduce_all ::
  "env \<Rightarrow> (int \<times> nat \<times> species \<times> real) list \<Rightarrow> generation \<Rightarrow> (error + generation) option" where
  "reproduce_all e [] g = Some (Inr g)"
| "reproduce_all e (x # xs) g =
     (case reproduce_species e x g of
        None \<Rightarrow> None
      | Some (Inl err) \<Rightarrow> Some (Inl err)
      | Some (Inr g') \<Rightarrow> reproduce_all e xs g')"

subsection \<open>\<^verbatim>\<open>reproduce\<close> (lines 40 to 142)\<close>

definition reproduce ::
  "env \<Rightarrow> reproduction \<Rightarrow> (nat \<times> species) list \<Rightarrow> int \<Rightarrow> (error + generation) option" where
  "reproduce e st species pop_size =
     (case filter_stagnated (stagnation_update e species) (reporters st, 0, [], 0) of
        Inl err \<Rightarrow> Some (Inl err)
      | Inr (reps, num_remaining, species_fitness, avg_sum) \<Rightarrow>
          if 0 = num_remaining
          then Some (Inr \<lparr>self = st\<lparr>reporters := reps\<rparr>, species_set = [], population = []\<rparr>)
          else
           (case spawn_amounts reps species_fitness avg_sum pop_size of
              Inl err \<Rightarrow> Some (Inl err)
            | Inr (reps', amounts) \<Rightarrow>
                reproduce_all e (zip amounts species_fitness)
                  \<lparr>self = st\<lparr>reporters := reps'\<rparr>, species_set = [], population = []\<rparr>))"

subsection \<open>Notions used in the statements\<close>

text \<open>The species the tracker reports as not stagnant, in the tracker's order.\<close>

definition active :: "(nat \<times> species \<times> bool) list \<Rightarrow> (nat \<times> species) list" where
  "active feed = map (\<lambda>x. (fst x, fst (snd x))) (filter (\<lambda>x. \<not> snd (snd x)) feed)"

text \<open>
  The specification's formula for the adjusted fitness of a species of \<open>N\<close> members: the
  sum of the shares \<open>fitness\<^sub>i / N\<close>, divided by \<open>N\<close>; and the mean fitness of its members.
\<close>

definition shared_fitness :: "species \<Rightarrow> real" where
  "shared_fitness s =
     (\<Sum>im\<leftarrow>members s. fitness (snd im) / real (length (members s)))
       / real (length (members s))"


text \<open>The identifiers of the members of a species.\<close>

definition member_ids :: "species \<Rightarrow> nat list" where
  "member_ids s = map fst (members s)"

text \<open>
  Lines 105 to 111, for a retained species: the members copied as elites
  (\<^verbatim>\<open>old_members[:self.elitism]\<close> after the sort, when \<^verbatim>\<open>self.elitism > 0\<close>).
\<close>

definition elites :: "int \<Rightarrow> species \<Rightarrow> (nat \<times> genome) list" where
  "elites el s = (if 0 < el then take (nat el) (sort_members (members s)) else [])"

text \<open>Lines 94 to 102: a species is retained when its spawn count, floored at the elitism, is positive.\<close>

definition retained :: "int \<Rightarrow> int \<Rightarrow> bool" where
  "retained el spawn0 = (0 < max spawn0 el)"

text \<open>
  Lines 111 to 124: the passes of the \<^verbatim>\<open>while\<close> loop for a retained species, one
  offspring each: the spawn count left once every elite has been counted.
\<close>

definition offspring_bred :: "int \<Rightarrow> int \<Rightarrow> species \<Rightarrow> nat" where
  "offspring_bred el spawn0 s = nat (max spawn0 el - int (length (elites el s)))"

text \<open>
  The identifiers of a well-formed input: no identifier occurs twice among the members of
  the surviving species, and all of them were issued before the indexer's next one.
\<close>

definition well_formed_ids :: "reproduction \<Rightarrow> (nat \<times> species \<times> bool) list \<Rightarrow> bool" where
  "well_formed_ids st feed \<longleftrightarrow>
     distinct (concat (map (\<lambda>x. member_ids (snd x)) (active feed)))
   \<and> (\<forall>x \<in> set (active feed). \<forall>k \<in> set (member_ids (snd x)). k < genome_indexer st)"

text \<open>
  The list the loop of line 92 runs over, \<^verbatim>\<open>zip(spawn_amounts, species_fitness)\<close>; empty
  when the call raises before it.
\<close>

definition allotment ::
  "env \<Rightarrow> reproduction \<Rightarrow> (nat \<times> species) list \<Rightarrow> int \<Rightarrow> (int \<times> nat \<times> species \<times> real) list" where
  "allotment e st species pop_size =
     (case filter_stagnated (stagnation_update e species) (reporters st, 0, [], 0) of
        Inl err \<Rightarrow> []
      | Inr (reps, num_remaining, species_fitness, avg_sum) \<Rightarrow>
         (case spawn_amounts reps species_fitness avg_sum pop_size of
            Inl err \<Rightarrow> []
          | Inr (reps', amounts) \<Rightarrow> zip amounts species_fitness))"

subsection \<open>Concrete inputs\<close>

definition genome_of :: "real \<Rightarrow> genome" where
  "genome_of f = \<lparr>fitness = f, genes = []\<rparr>"

text \<open>Two trackers: one finds no species stagnant, the other finds every species stagnant.\<close>

definition none_stagnant :: "(nat \<times> species) list \<Rightarrow> (nat \<times> species \<times> bool) list" where
  "none_stagnant sp = map (\<lambda>x. (fst x, snd x, False)) sp"

definition all_stagnant :: "(nat \<times> species) list \<Rightarrow> (nat \<times> species \<times> bool) list" where
  "all_stagnant sp = map (\<lambda>x. (fst x, snd x, True)) sp"

text \<open>
  An environment whose crossover returns the first parent, whose mutation changes
  nothing and whose \<open>n\<close>-th random draw is \<open>n\<close>.
\<close>

definition cloning_env :: "((nat \<times> species) list \<Rightarrow> (nat \<times> species \<times> bool) list) \<Rightarrow> env" where
  "cloning_env tracker =
     \<lparr>stagnation_update = tracker, crossover = (\<lambda>p1 p2 gid. p1), mutate = (\<lambda>g. g),
      random_draw = (\<lambda>n. n)\<rparr>"

definition fresh_reproduction :: "int \<Rightarrow> real \<Rightarrow> nat \<Rightarrow> reproduction" where
  "fresh_reproduction el thr next_id =
     \<lparr>elitism = el, survival_threshold = thr, reporters = [], genome_indexer = next_id,
      ancestors = [], rng = 0\<rparr>"

definition empty_species :: species where
  "empty_species = \<lparr>members = []\<rparr>"

definition species_A :: species where
  "species_A = \<lparr>members = [(1, genome_of 10), (2, genome_of 20), (3, genome_of 30)]\<rparr>"

definition species_B :: species where
  "species_B = \<lparr>members = [(4, genome_of 5), (5, genome_of 5)]\<rparr>"

text \<open>The parameters of a configuration file that sets the two options.\<close>

definition params_of :: "cfg_value \<Rightarrow> cfg_value \<Rightarrow> string \<Rightarrow> cfg_value" where
  "params_of el thr k =
     (if k = ''elitism'' then el else if k = ''survival_threshold'' then thr else CNone)"

definition lone_species :: species where
  "lone_species = \<lparr>members = [(1, genome_of 7)]\<rparr>"

section \<open>Properties\<close>

subsection \<open>Adjusted fitness and the stagnation filter\<close>

lemma species_sum_nonempty:
  "members s \<noteq> [] \<Longrightarrow>
   species_sum s ms acc =
     Inr (acc + (\<Sum>im\<leftarrow>ms. fitness (snd im) / real (length (members s))))"
  by (induction ms arbitrary: acc) (simp_all add: py_div_def add.assoc)

lemma adjusted_fitness_empty:
  "members s = [] \<Longrightarrow> adjusted_fitness s = Inl ZeroDivisionError"
  by (simp add: adjusted_fitness_def py_div_def)

lemma adjusted_fitness_nonempty:
  "members s \<noteq> [] \<Longrightarrow> adjusted_fitness s = Inr (shared_fitness s)"
  by (simp add: adjusted_fitness_def species_sum_nonempty py_div_def shared_fitness_def)

lemma adjusted_fitness_Inl:
  "adjusted_fitness s = Inl err \<Longrightarrow> err = ZeroDivisionError \<and> members s = []"
  by (cases "members s = []") (simp_all add: adjusted_fitness_empty adjusted_fitness_nonempty)

lemma adjusted_fitness_Inr:
  "adjusted_fitness s = Inr v \<Longrightarrow> members s \<noteq> [] \<and> v = shared_fitness s"
  by (cases "members s = []") (simp_all add: adjusted_fitness_empty adjusted_fitness_nonempty)


text \<open>
  When the loop over the tracker's triples completes, \<^verbatim>\<open>species_fitness\<close> has one entry
  for every species that is not stagnant, in order, carrying its adjusted fitness; no such
  species is empty; and every stagnant species has been reported.
\<close>

lemma filter_stagnated_Inr:
  "filter_stagnated feed (reps, n, sf, a) = Inr (reps', n', sf', a') \<Longrightarrow>
     sf' = sf @ map (\<lambda>x. (fst x, snd x, shared_fitness (snd x))) (active feed)
   \<and> n' = n + length (active feed)
   \<and> a' = a + (\<Sum>x\<leftarrow>active feed. shared_fitness (snd x))
   \<and> reps' = reps @ map (\<lambda>x. Species_stagnant (fst (snd x))) (filter (\<lambda>x. snd (snd x)) feed)
   \<and> (\<forall>x \<in> set (active feed). members (snd x) \<noteq> [])"
proof (induction feed arbitrary: reps n sf a)
  case Nil
  then show ?case by (simp add: active_def)
next
  case (Cons x feed)
  obtain sid s stagnant where x: "x = (sid, s, stagnant)" by (cases x) auto
  show ?case
  proof (cases stagnant)
    case True
    with Cons.prems x have
      "filter_stagnated feed (reps @ [Species_stagnant s], n, sf, a) = Inr (reps', n', sf', a')"
      by simp
    from Cons.IH[OF this] show ?thesis using True x by (simp add: active_def)
  next
    case False
    with Cons.prems x obtain v where v: "adjusted_fitness s = Inr v"
      and rest: "filter_stagnated feed (reps, n + 1, sf @ [(sid, s, v)], a + v)
                   = Inr (reps', n', sf', a')"
      by (auto split: sum.splits)
    from adjusted_fitness_Inr[OF v] have "members s \<noteq> []" "v = shared_fitness s" by simp_all
    with Cons.IH[OF rest] show ?thesis using False x by (simp add: active_def)
  qed
qed

lemma filter_stagnated_Inl:
  "filter_stagnated feed acc = Inl err \<Longrightarrow> err = ZeroDivisionError"
proof (induction feed arbitrary: acc)
  case Nil
  then show ?case by simp
next
  case (Cons x feed)
  obtain sid s stagnant where x: "x = (sid, s, stagnant)" by (cases x) auto
  obtain reps n sf a where acc: "acc = (reps, n, sf, a)" by (cases acc) auto
  from Cons.prems show ?case unfolding x acc
    by (auto split: if_splits sum.splits dest: adjusted_fitness_Inl Cons.IH)
qed

lemma filter_stagnated_empty_member:
  assumes "(sid, s, False) \<in> set feed" and "members s = []"
  shows "filter_stagnated feed acc = Inl ZeroDivisionError"
proof (cases "filter_stagnated feed acc")
  case (Inl err)
  then show ?thesis using filter_stagnated_Inl by simp
next
  case (Inr r)
  obtain reps n sf a where acc: "acc = (reps, n, sf, a)" by (cases acc) auto
  obtain reps' n' sf' a' where r: "r = (reps', n', sf', a')" by (cases r) auto
  from filter_stagnated_Inr[OF Inr[unfolded acc r]]
  have "\<forall>x \<in> set (active feed). members (snd x) \<noteq> []" by simp
  moreover from assms(1) have "(sid, s) \<in> set (active feed)" by (force simp: active_def)
  ultimately show ?thesis using assms(2) by auto
qed

lemma filter_stagnated_all_stagnant:
  "\<forall>x \<in> set feed. snd (snd x) \<Longrightarrow>
   filter_stagnated feed (reps, n, sf, a) =
     Inr (reps @ map (\<lambda>x. Species_stagnant (fst (snd x))) feed, n, sf, a)"
  by (induction feed arbitrary: reps) auto



text \<open>
  Claim C7. If the tracker classifies every species as stagnant, \<^verbatim>\<open>reproduce\<close> raises
  nothing: it reports each species as stagnant, leaves the species set empty and returns
  an empty population.
\<close>

theorem all_stagnant_empty_generation:
  assumes "\<forall>x \<in> set (stagnation_update e species). snd (snd x)"
  shows "reproduce e st species pop_size =
     Some (Inr \<lparr>self = st\<lparr>reporters := reporters st @
                   map (\<lambda>x. Species_stagnant (fst (snd x))) (stagnation_update e species)\<rparr>,
                species_set = [], population = []\<rparr>)"
  by (simp add: reproduce_def filter_stagnated_all_stagnant[OF assms])

theorem all_stagnant_empty_generation_witness:
  "stagnation_update (cloning_env all_stagnant) [(1, species_A), (2, species_B)] =
      [(1, species_A, True), (2, species_B, True)]
   \<and> reproduce (cloning_env all_stagnant) (fresh_reproduction 1 (1 / 2) 6)
        [(1, species_A), (2, species_B)] 6 =
      Some (Inr \<lparr>self = (fresh_reproduction 1 (1 / 2) 6)
                    \<lparr>reporters := [Species_stagnant species_A, Species_stagnant species_B]\<rparr>,
                 species_set = [], population = []\<rparr>)"
proof -
  have h: "\<forall>x \<in> set (stagnation_update (cloning_env all_stagnant)
                         [(1, species_A), (2, species_B)]). snd (snd x)"
    by (simp add: cloning_env_def all_stagnant_def)
  show ?thesis
    using all_stagnant_empty_generation[OF h, of "fresh_reproduction 1 (1 / 2) 6" 6]
    by (simp add: cloning_env_def all_stagnant_def fresh_reproduction_def)
qed

text \<open>
  Claim C10. The division by the member count is guarded by nothing: whenever the tracker
  reports a species without members as not stagnant, \<^verbatim>\<open>reproduce\<close> raises
  \<^verbatim>\<open>ZeroDivisionError\<close>. Freedom from that error therefore requires every active species
  to have a member.
\<close>

theorem empty_active_species_divides_by_zero:
  assumes "(sid, s, False) \<in> set (stagnation_update e species)" and "members s = []"
  shows "reproduce e st species pop_size = Some (Inl ZeroDivisionError)"
  using filter_stagnated_empty_member[OF assms] by (simp add: reproduce_def)

theorem empty_active_species_divides_by_zero_witness:
  "(2, empty_species, False)
       \<in> set (stagnation_update (cloning_env none_stagnant) [(1, species_A), (2, empty_species)])
   \<and> members empty_species = []
   \<and> reproduce (cloning_env none_stagnant) (fresh_reproduction 0 (1 / 2) 4)
        [(1, species_A), (2, empty_species)] 5 = Some (Inl ZeroDivisionError)"
proof -
  have h1: "(2, empty_species, False)
       \<in> set (stagnation_update (cloning_env none_stagnant) [(1, species_A), (2, empty_species)])"
    by (simp add: cloning_env_def none_stagnant_def)
  have h2: "members empty_species = []" by (simp add: empty_species_def)
  show ?thesis
    using h1 h2
      empty_active_species_divides_by_zero[OF h1 h2, of "fresh_reproduction 0 (1 / 2) 4" 5]
    by simp
qed

subsection \<open>Construction\<close>

text \<open>
  Claim C8, as the code has it. \<^verbatim>\<open>__init__\<close> validates nothing: whatever integer is
  configured as \<^verbatim>\<open>elitism\<close> and whatever float as \<^verbatim>\<open>survival_threshold\<close>, negative or
  out of range, construction succeeds and stores them as they are.
\<close>

theorem init_stores_any_numbers:
  assumes "params ''elitism'' = CInt el" and "params ''survival_threshold'' = CFloat thr"
  shows "init params reps =
     Inr \<lparr>elitism = el, survival_threshold = thr, reporters = reps,
          genome_indexer = 1, ancestors = [], rng = 0\<rparr>"
  using assms by (simp add: init_def)

theorem init_stores_any_numbers_witness:
  "params_of (CInt (- 3)) (CFloat 0) ''elitism'' = CInt (- 3)
   \<and> params_of (CInt (- 3)) (CFloat 0) ''survival_threshold'' = CFloat 0
   \<and> init (params_of (CInt (- 3)) (CFloat 0)) [] =
       Inr \<lparr>elitism = - 3, survival_threshold = 0, reporters = [],
            genome_indexer = 1, ancestors = [], rng = 0\<rparr>"
proof -
  have h1: "params_of (CInt (- 3)) (CFloat 0) ''elitism'' = CInt (- 3)"
    by (simp add: params_of_def)
  have h2: "params_of (CInt (- 3)) (CFloat 0) ''survival_threshold'' = CFloat 0"
    by (simp add: params_of_def)
  show ?thesis using h1 h2 init_stores_any_numbers[OF h1 h2, of "[]"] by simp
qed

text \<open>
  The claim as the specification states it fails: with \<^verbatim>\<open>elitism = -1\<close> and
  \<^verbatim>\<open>survival_threshold = 1.5\<close> the constructor returns an object.
\<close>

theorem init_rejects_nothing_counterexample:
  "init (params_of (CInt (- 1)) (CFloat (3 / 2))) [] =
     Inr \<lparr>elitism = - 1, survival_threshold = 3 / 2, reporters = [],
          genome_indexer = 1, ancestors = [], rng = 0\<rparr>"
  by (simp add: init_def params_of_def)

subsection \<open>Dictionaries, elites and the breeding loop\<close>

lemma update_fresh: "k \<notin> fst ` set al \<Longrightarrow> AList.update k v al = al @ [(k, v)]"
  by (induction al) auto

lemma transfer_elites_fresh:
  "distinct (map fst el) \<Longrightarrow> fst ` set el \<inter> fst ` set pop = {} \<Longrightarrow>
   transfer_elites el pop spawn = (pop @ el, spawn - int (length el))"
proof (induction el arbitrary: pop spawn)
  case Nil
  then show ?case by simp
next
  case (Cons im el)
  from Cons.prems have fresh: "fst im \<notin> fst ` set pop" by auto
  have step: "AList.update (fst im) (snd im) pop = pop @ [im]"
    using update_fresh[OF fresh] by simp
  from Cons.prems have "distinct (map fst el)"
    and "fst ` set el \<inter> fst ` set (pop @ [im]) = {}" by auto
  from Cons.IH[OF this] show ?case by (simp add: step)
qed

lemma random_choice_Inr:
  "random_choice e xs st = Inr (x, st') \<Longrightarrow>
     x \<in> set xs \<and> st' = st\<lparr>rng := rng st + 1\<rparr>"
  by (auto simp: random_choice_def split: if_splits)

lemma breed_Inr_parents:
  assumes "breed e pool (st, pop) = Inr (st', pop')"
  shows "\<exists>p1 p2. p1 \<in> set pool \<and> p2 \<in> set pool
    \<and> st' = st\<lparr>rng := rng st + 2, genome_indexer := genome_indexer st + 1,
            ancestors := AList.update (genome_indexer st) [fst p1, fst p2] (ancestors st)\<rparr>
    \<and> pop' = AList.update (genome_indexer st)
            (mutate e (crossover e (snd p1) (snd p2) (genome_indexer st))) pop"
proof -
  from assms obtain p1 st1 where c1: "random_choice e pool st = Inr (p1, st1)"
    by (auto simp: breed_def split: sum.splits)
  from assms c1 obtain p2 st2 where c2: "random_choice e pool st1 = Inr (p2, st2)"
    by (auto simp: breed_def split: sum.splits)
  from random_choice_Inr[OF c1] have 1: "p1 \<in> set pool" "st1 = st\<lparr>rng := rng st + 1\<rparr>"
    by simp_all
  from random_choice_Inr[OF c2] have 2: "p2 \<in> set pool" "st2 = st1\<lparr>rng := rng st1 + 1\<rparr>"
    by simp_all
  from assms c1 c2 have
    "st' = st2\<lparr>genome_indexer := genome_indexer st2 + 1,
            ancestors := AList.update (genome_indexer st2) [fst p1, fst p2] (ancestors st2)\<rparr>"
    "pop' = AList.update (genome_indexer st2)
            (mutate e (crossover e (snd p1) (snd p2) (genome_indexer st2))) pop"
    by (simp_all add: breed_def get_next_def Let_def)
  with 1 2 show ?thesis by (intro exI[of _ p1] exI[of _ p2]) simp
qed

lemma breed_Inr:
  assumes "breed e pool (st, pop) = Inr (st', pop')"
  shows "genome_indexer st' = genome_indexer st + 1"
    and "elitism st' = elitism st"
    and "survival_threshold st' = survival_threshold st"
    and "reporters st' = reporters st"
    and "\<exists>child. pop' = AList.update (genome_indexer st) child pop"
proof -
  from breed_Inr_parents[OF assms] obtain p1 p2 where
    st': "st' = st\<lparr>rng := rng st + 2, genome_indexer := genome_indexer st + 1,
            ancestors := AList.update (genome_indexer st) [fst p1, fst p2] (ancestors st)\<rparr>"
    and pop': "pop' = AList.update (genome_indexer st)
            (mutate e (crossover e (snd p1) (snd p2) (genome_indexer st))) pop"
    by blast
  from st' show "genome_indexer st' = genome_indexer st + 1" "elitism st' = elitism st"
    "survival_threshold st' = survival_threshold st" "reporters st' = reporters st"
    by simp_all
  from pop' show "\<exists>child. pop' = AList.update (genome_indexer st) child pop" ..
qed

lemma breed_while_returns: "\<exists>r. breed_while e pool spawn acc = Some r"
proof (induction "nat spawn" arbitrary: spawn acc)
  case 0
  then have "\<not> 0 < spawn" by simp
  then show ?case by (subst breed_while.simps) simp
next
  case (Suc n)
  then have pos: "0 < spawn" and n: "n = nat (spawn - 1)" by auto
  show ?case
  proof (cases "breed e pool acc")
    case (Inl err)
    with pos show ?thesis by (subst breed_while.simps) simp
  next
    case (Inr acc')
    from Suc.hyps(1)[OF n] obtain r where "breed_while e pool (spawn - 1) acc' = Some r" ..
    with pos Inr show ?thesis by (subst breed_while.simps) simp
  qed
qed

lemma breed_while_Inr:
  assumes "breed_while e pool spawn (st, pop) = Some (Inr (st', pop'))"
  shows "genome_indexer st' = genome_indexer st + nat spawn
       \<and> elitism st' = elitism st
       \<and> survival_threshold st' = survival_threshold st
       \<and> reporters st' = reporters st
       \<and> ((\<forall>k \<in> fst ` set pop. k < genome_indexer st) \<longrightarrow>
            (\<exists>cs. pop' = pop @ cs
                \<and> map fst cs = [genome_indexer st ..< genome_indexer st + nat spawn]))"
  using assms
proof (induction "nat spawn" arbitrary: spawn st pop)
  case 0
  then have "\<not> 0 < spawn" by simp
  with "0.prems" have "st' = st \<and> pop' = pop"
    by (subst (asm) breed_while.simps) simp
  with \<open>0 = nat spawn\<close> show ?case by simp
next
  case (Suc n)
  then have pos: "0 < spawn" and n: "n = nat (spawn - 1)" by auto
  from Suc.prems pos obtain st1 pop1
    where b: "breed e pool (st, pop) = Inr (st1, pop1)"
      and w: "breed_while e pool (spawn - 1) (st1, pop1) = Some (Inr (st', pop'))"
    by (subst (asm) breed_while.simps) (auto split: sum.splits)
  note B = breed_Inr[OF b]
  note IH = Suc.hyps(1)[OF n w]
  from B(5) obtain child where pop1: "pop1 = AList.update (genome_indexer st) child pop" ..
  have cnt: "nat spawn = Suc (nat (spawn - 1))" using pos by simp
  have "(\<exists>cs. pop' = pop @ cs
                \<and> map fst cs = [genome_indexer st ..< genome_indexer st + nat spawn])"
    if fresh: "\<forall>k \<in> fst ` set pop. k < genome_indexer st"
  proof -
    from fresh have "genome_indexer st \<notin> fst ` set pop" by auto
    then have p1: "pop1 = pop @ [(genome_indexer st, child)]"
      unfolding pop1 by (rule update_fresh)
    with fresh B(1) have "\<forall>k \<in> fst ` set pop1. k < genome_indexer st1" by auto
    with IH obtain cs where cs: "pop' = pop1 @ cs"
      "map fst cs = [genome_indexer st1 ..< genome_indexer st1 + nat (spawn - 1)]" by blast
    have "pop' = pop @ ((genome_indexer st, child) # cs)" using cs(1) p1 by simp
    moreover have "map fst ((genome_indexer st, child) # cs)
        = [genome_indexer st ..< genome_indexer st + nat spawn]"
      using cs(2) B(1) cnt by (simp add: upt_conv_Cons)
    ultimately show ?thesis by blast
  qed
  with IH B cnt show ?case by simp
qed


subsection \<open>Termination\<close>

lemma reproduce_species_returns: "\<exists>r. reproduce_species e x g = Some r"
proof -
  obtain spawn0 sid s f where x: "x = (spawn0, sid, s, f)" by (cases x) auto
  have loop: "\<exists>r. (case breed_while e pool sp acc of
                 None \<Rightarrow> None
               | Some (Inl err) \<Rightarrow> Some (Inl err)
               | Some (Inr (st', np)) \<Rightarrow> Some (Inr (G st' np))) = Some r"
    for pool sp acc and G :: "reproduction \<Rightarrow> (nat \<times> genome) list \<Rightarrow> generation"
    using breed_while_returns[of e pool sp acc] by (auto split: sum.splits prod.splits)
  show ?thesis
    unfolding x reproduce_species_def by (simp add: Let_def loop split: prod.splits)
qed

lemma reproduce_all_returns: "\<exists>r. reproduce_all e plan g = Some r"
proof (induction plan arbitrary: g)
  case Nil
  show ?case by simp
next
  case (Cons x plan)
  from reproduce_species_returns obtain r where r: "reproduce_species e x g = Some r" by blast
  show ?case
  proof (cases r)
    case (Inl err)
    with r show ?thesis by simp
  next
    case (Inr g')
    with r Cons.IH[of g'] show ?thesis by simp
  qed
qed

text \<open>
  Claim C9. \<^verbatim>\<open>reproduce\<close> returns, with a value or with an exception, for every
  environment, object, species set and target size: the \<^verbatim>\<open>while\<close> loop is entered with
  a spawn count that falls by one in every pass, so that it returns too, and a run of the
  loop that completes has made \<open>nat spawn\<close> passes: every pass issues one identifier, and
  the indexer has advanced by that number.
\<close>

theorem reproduce_returns:
  "(\<exists>r. reproduce e st species pop_size = Some r)
   \<and> (\<exists>r. breed_while e pool spawn (loop_st, loop_pop) = Some r
          \<and> (\<forall>st' pop'. r = Inr (st', pop') \<longrightarrow>
                 genome_indexer st' = genome_indexer loop_st + nat spawn))"
proof
  show "\<exists>r. reproduce e st species pop_size = Some r"
    unfolding reproduce_def
    using reproduce_all_returns
    by (simp split: sum.splits prod.splits)
next
  from breed_while_returns obtain r where r: "breed_while e pool spawn (loop_st, loop_pop) = Some r"
    by blast
  have "genome_indexer st' = genome_indexer loop_st + nat spawn" if "r = Inr (st', pop')"
    for st' pop'
    using breed_while_Inr[of e pool spawn loop_st loop_pop st' pop'] r that by simp
  with r show "\<exists>r. breed_while e pool spawn (loop_st, loop_pop) = Some r
          \<and> (\<forall>st' pop'. r = Inr (st', pop') \<longrightarrow>
                 genome_indexer st' = genome_indexer loop_st + nat spawn)"
    by blast
qed

theorem reproduce_returns_witness:
  "(\<exists>r. reproduce (cloning_env none_stagnant) (fresh_reproduction 1 (1 / 2) 6)
           [(1, species_A), (2, species_B)] 6 = Some r)
   \<and> (\<exists>st' pop'. breed_while (cloning_env none_stagnant)
                       [(3, genome_of 30), (2, genome_of 20)] 3
                       (fresh_reproduction 1 (1 / 2) 6, [(3, genome_of 30)])
                     = Some (Inr (st', pop'))
                 \<and> genome_indexer st' = 6 + 3)"
proof -
  let ?e = "cloning_env none_stagnant"
  let ?st = "fresh_reproduction 1 (1 / 2) 6"
  let ?pool = "[(3, genome_of 30), (2, genome_of 20)]"
  from reproduce_returns[where e = ?e and st = ?st and species = "[(1, species_A), (2, species_B)]"
         and pop_size = 6 and pool = ?pool and spawn = 3 and loop_st = ?st
         and loop_pop = "[(3, genome_of 30)]"]
  obtain r where
    1: "\<exists>r. reproduce ?e ?st [(1, species_A), (2, species_B)] 6 = Some r"
    and 2: "breed_while ?e ?pool 3 (?st, [(3, genome_of 30)]) = Some r"
    and 3: "\<forall>st' pop'. r = Inr (st', pop') \<longrightarrow>
              genome_indexer st' = genome_indexer ?st + nat 3"
    by blast
  have "\<exists>st' pop'. breed_while ?e ?pool 3 (?st, [(3, genome_of 30)]) = Some (Inr (st', pop'))"
    by (simp add: breed_while.simps breed_def get_next_def random_choice_def Let_def
        cloning_env_def fresh_reproduction_def)
  with 2 obtain st' pop' where r: "r = Inr (st', pop')" by auto
  with 3 have "genome_indexer st' = 6 + 3" by (simp add: fresh_reproduction_def)
  with 1 2 r show ?thesis by blast
qed

subsection \<open>The breeding pool\<close>




subsection \<open>Zero spawn weight\<close>

lemma raw_spawn_nonneg: "0 \<le> raw_spawn avg x"
  by (cases x) (simp add: raw_spawn_def)

lemma raw_spawn_zero_iff: "raw_spawn avg (sid, s, f) = 0 \<longleftrightarrow> members s = []"
  by (simp add: raw_spawn_def)

lemma sum_list_map_nonneg:
  fixes h :: "'a \<Rightarrow> real"
  shows "(\<And>x. 0 \<le> h x) \<Longrightarrow> 0 \<le> (\<Sum>x\<leftarrow>xs. h x)"
  by (induction xs) (simp_all add: add_nonneg_nonneg)

lemma sum_list_nonneg_zero:
  fixes h :: "'a \<Rightarrow> real"
  assumes "\<And>x. 0 \<le> h x" and "(\<Sum>x\<leftarrow>xs. h x) = 0" and "x \<in> set xs"
  shows "h x = 0"
  using assms(2,3)
proof (induction xs)
  case Nil
  then show ?case by simp
next
  case (Cons y ys)
  have "0 \<le> h y" "0 \<le> (\<Sum>x\<leftarrow>ys. h x)"
    using assms(1) sum_list_map_nonneg[of h ys] by simp_all
  with Cons.prems(1) have "h y = 0" "(\<Sum>x\<leftarrow>ys. h x) = 0" by simp_all
  with Cons show ?case by auto
qed

text \<open>
  Claim C1, as the code has it. A raw spawn weight is the member count times 1.1 or 0.9,
  so the total is zero only if no surviving species has a member; then, with at least one
  surviving species, \<^verbatim>\<open>reproduce\<close> raises \<^verbatim>\<open>ZeroDivisionError\<close> and returns no population.
\<close>

theorem zero_spawn_weight_raises:
  assumes "active (stagnation_update e species) \<noteq> []"
    and "(\<Sum>x\<leftarrow>active (stagnation_update e species). raw_spawn avg (fst x, snd x, f x)) = 0"
  shows "reproduce e st species pop_size = Some (Inl ZeroDivisionError)"
proof -
  from assms(1) obtain x where x: "x \<in> set (active (stagnation_update e species))"
    by (cases "active (stagnation_update e species)") auto
  have "raw_spawn avg (fst x, snd x, f x) = 0"
    by (rule sum_list_nonneg_zero[where h = "\<lambda>x. raw_spawn avg (fst x, snd x, f x)",
          OF raw_spawn_nonneg assms(2) x])
  then have "members (snd x) = []" by (simp add: raw_spawn_zero_iff)
  moreover from x have "(fst x, snd x, False) \<in> set (stagnation_update e species)"
    by (auto simp: active_def)
  ultimately have "filter_stagnated (stagnation_update e species) (reporters st, 0, [], 0)
      = Inl ZeroDivisionError"
    by (rule filter_stagnated_empty_member[rotated])
  then show ?thesis by (simp add: reproduce_def)
qed

theorem zero_spawn_weight_raises_witness:
  "active (stagnation_update (cloning_env none_stagnant) [(3, empty_species)]) = [(3, empty_species)]
   \<and> (\<Sum>x\<leftarrow>active (stagnation_update (cloning_env none_stagnant) [(3, empty_species)]).
         raw_spawn 0 (fst x, snd x, 0)) = 0
   \<and> reproduce (cloning_env none_stagnant) (fresh_reproduction 2 (1 / 5) 1) [(3, empty_species)] 4
       = Some (Inl ZeroDivisionError)"
proof -
  let ?sp = "[(3, empty_species)]"
  have a: "active (stagnation_update (cloning_env none_stagnant) ?sp) = [(3, empty_species)]"
    by (simp add: active_def cloning_env_def none_stagnant_def)
  have h1: "active (stagnation_update (cloning_env none_stagnant) ?sp) \<noteq> []"
    by (simp add: a)
  have h2: "(\<Sum>x\<leftarrow>active (stagnation_update (cloning_env none_stagnant) ?sp).
         raw_spawn 0 (fst x, snd x, (\<lambda>x. 0) x)) = 0"
    unfolding a by (simp add: raw_spawn_def empty_species_def)
  show ?thesis
    using a h2 zero_spawn_weight_raises[OF h1 h2, of "fresh_reproduction 2 (1 / 5) 1" 4]
    by simp
qed

text \<open>
  The claim as the specification states it fails: two surviving species without members
  have a total raw spawn weight of zero, and the call raises instead of returning an empty
  population.
\<close>

theorem zero_spawn_weight_counterexample:
  "(\<Sum>x\<leftarrow>[(1, empty_species, 0), (2, empty_species, 0)]. raw_spawn 0 x) = 0
   \<and> reproduce (cloning_env none_stagnant) (fresh_reproduction 0 (1 / 2) 1)
        [(1, empty_species), (2, empty_species)] 10 = Some (Inl ZeroDivisionError)"
  by (simp add: reproduce_def cloning_env_def none_stagnant_def fresh_reproduction_def
      empty_species_def adjusted_fitness_def py_div_def raw_spawn_def)

subsection \<open>The scenario of the specification\<close>

text \<open>
  Claim C4. Species A with fitness values 10, 20, 30 (ids 1 to 3) and species B with 5, 5
  (ids 4 and 5), \<^verbatim>\<open>elitism = 1\<close>, \<^verbatim>\<open>survival_threshold = 0.5\<close>, target size 6, next free
  identifier 6: the adjusted fitnesses are 20/3 and 5/2, their average is 55/12, the raw
  spawn weights are 3.3 and 1.8, the spawn amounts are 4 and 2, and whatever crossover,
  mutation and random draws do, the population returned has 6 genomes, among them the
  genome of fitness 30 under id 3 and the first genome of fitness 5 under id 4.
\<close>

theorem concrete_scenario:
  "filter_stagnated (none_stagnant [(1, species_A), (2, species_B)]) ([], 0, [], 0) =
      Inr ([], 2, [(1, species_A, 20 / 3), (2, species_B, 5 / 2)], 55 / 6)
   \<and> map (raw_spawn (55 / 12)) [(1, species_A, 20 / 3), (2, species_B, 5 / 2)] = [33 / 10, 9 / 5]
   \<and> spawn_amounts [] [(1, species_A, 20 / 3), (2, species_B, 5 / 2)] (55 / 6) 6 =
      Inr ([Info_average (55 / 12), Info_spawn_amounts [4, 2],
            Info_species_fitness [20 / 3, 5 / 2]], [4, 2])
   \<and> (\<exists>g. reproduce \<lparr>stagnation_update = none_stagnant, crossover = c, mutate = m,
                       random_draw = d\<rparr>
              (fresh_reproduction 1 (1 / 2) 6) [(1, species_A), (2, species_B)] 6 = Some (Inr g)
          \<and> length (population g) = 6
          \<and> map fst (population g) = [3, 6, 7, 8, 4, 9]
          \<and> map_of (population g) 3 = Some (genome_of 30)
          \<and> map_of (population g) 4 = Some (genome_of 5))"
proof -
  have 1: "filter_stagnated (none_stagnant [(1, species_A), (2, species_B)]) ([], 0, [], 0) =
      Inr ([], 2, [(1, species_A, 20 / 3), (2, species_B, 5 / 2)], 55 / 6)"
    by (simp add: none_stagnant_def species_A_def species_B_def genome_of_def
        adjusted_fitness_def py_div_def)
  have 2: "map (raw_spawn (55 / 12)) [(1, species_A, 20 / 3), (2, species_B, 5 / 2)]
      = [33 / 10, 9 / 5]"
    by (simp add: raw_spawn_def species_A_def species_B_def)
  have 3: "spawn_amounts [] [(1, species_A, 20 / 3), (2, species_B, 5 / 2)] (55 / 6) 6 =
      Inr ([Info_average (55 / 12), Info_spawn_amounts [4, 2],
            Info_species_fitness [20 / 3, 5 / 2]], [4, 2])"
    by (simp add: spawn_amounts_def py_div_def raw_spawn_def species_A_def species_B_def
        py_round_def Let_def)
  have 4: "\<exists>g. reproduce \<lparr>stagnation_update = none_stagnant, crossover = c, mutate = m,
                       random_draw = d\<rparr>
              (fresh_reproduction 1 (1 / 2) 6) [(1, species_A), (2, species_B)] 6 = Some (Inr g)
          \<and> length (population g) = 6
          \<and> map fst (population g) = [3, 6, 7, 8, 4, 9]
          \<and> map_of (population g) 3 = Some (genome_of 30)
          \<and> map_of (population g) 4 = Some (genome_of 5)"
    by (simp add: reproduce_def none_stagnant_def species_A_def species_B_def
        fresh_reproduction_def adjusted_fitness_def py_div_def
        spawn_amounts_def raw_spawn_def py_round_def Let_def reproduce_species_def
        sort_members_def breeding_pool_def breed_while.simps breed_def get_next_def random_choice_def
        genome_of_def)
  from 1 2 3 4 show ?thesis by blast
qed

subsection \<open>Elites and the loop over the species\<close>

lemma set_sort_members: "set (sort_members ms) = set ms"
  by (simp add: sort_members_def)


lemma distinct_keys_sort_members:
  "distinct (map fst ms) \<Longrightarrow> distinct (map fst (sort_members ms))"
  by (simp add: sort_members_def distinct_map)

lemma set_elites: "set (elites el s) \<subseteq> set (members s)"
  using set_take_subset[of "nat el" "sort_members (members s)"]
  by (auto simp: elites_def set_sort_members)

lemma distinct_keys_elites:
  "distinct (member_ids s) \<Longrightarrow> distinct (map fst (elites el s))"
  using distinct_take[of "map fst (sort_members (members s))" "nat el"]
  by (simp add: elites_def member_ids_def distinct_keys_sort_members take_map)

lemma length_elites_le: "0 < el \<Longrightarrow> int (length (elites el s)) \<le> el"
  by (simp add: elites_def)

lemma keys_elites: "fst ` set (elites el s) \<subseteq> set (member_ids s)"
  using set_elites[of el s] by (auto simp: member_ids_def)

text \<open>One species, when the loop body completes.\<close>

lemma reproduce_species_Inr:
  assumes rs: "reproduce_species e (spawn0, sid, s, f) g = Some (Inr g')"
    and dist: "distinct (member_ids s)"
    and disj: "set (member_ids s) \<inter> fst ` set (population g) = {}"
    and old: "\<forall>k \<in> set (member_ids s). k < genome_indexer (self g)"
    and fresh: "\<forall>k \<in> fst ` set (population g). k < genome_indexer (self g)"
  shows "\<exists>cs. population g' =
            population g @ (if retained (elitism (self g)) spawn0
                            then elites (elitism (self g)) s else []) @ cs
          \<and> map fst cs = [genome_indexer (self g) ..< genome_indexer (self g')]
          \<and> length cs = (if retained (elitism (self g)) spawn0
                          then offspring_bred (elitism (self g)) spawn0 s else 0)
          \<and> genome_indexer (self g) \<le> genome_indexer (self g')
          \<and> elitism (self g') = elitism (self g)"
proof -
  let ?el = "elitism (self g)"
  let ?spawn = "max spawn0 ?el"
  let ?E = "elites ?el s"
  let ?sp' = "AList.update sid (s\<lparr>members := []\<rparr>) (species_set g)"
  show ?thesis
  proof (cases "?spawn \<le> 0")
    case True
    with rs have "g' = g"
      by (simp add: reproduce_species_def)
    with True show ?thesis
      by (auto simp: retained_def)
  next
    case False
    then have ret: "retained ?el spawn0" by (auto simp: retained_def)
    have dE: "distinct (map fst ?E)" by (rule distinct_keys_elites[OF dist])
    have kE: "fst ` set ?E \<subseteq> set (member_ids s)" by (rule keys_elites)
    with disj have "fst ` set ?E \<inter> fst ` set (population g) = {}" by auto
    note te = transfer_elites_fresh[OF dE this, of ?spawn]
    have tr: "(if 0 < ?el
               then transfer_elites (take (nat ?el) (sort_members (members s)))
                      (population g) ?spawn
               else (population g, ?spawn))
             = (population g @ ?E, ?spawn - int (length ?E))"
    proof (cases "0 < ?el")
      case True
      then have "take (nat ?el) (sort_members (members s)) = ?E"
        by (simp add: elites_def)
      with True te show ?thesis by simp
    next
      case False
      then have "?E = []" by (simp add: elites_def)
      with False show ?thesis by simp
    qed
    have lenE: "int (length ?E) \<le> ?spawn"
    proof (cases "0 < ?el")
      case True
      from length_elites_le[OF this, of s] show ?thesis by simp
    next
      case False
      with \<open>\<not> ?spawn \<le> 0\<close> show ?thesis by (simp add: elites_def)
    qed
    note rs' = rs[unfolded reproduce_species_def Let_def prod.case tr if_not_P[OF False]]
    show ?thesis
    proof (cases "?spawn - int (length ?E) \<le> 0")
      case True
      from rs'[unfolded if_P[OF True]]
      have "g' = g\<lparr>species_set := ?sp', population := population g @ ?E\<rparr>"
        by simp
      with True lenE ret show ?thesis
        by (simp add: offspring_bred_def)
    next
      case rest: False
      from rs'[unfolded if_not_P[OF rest]] obtain st' np where
        bw: "breed_while e (breeding_pool (self g) (sort_members (members s)))
               (?spawn - int (length ?E)) (self g, population g @ ?E) = Some (Inr (st', np))"
        and g': "g' = \<lparr>self = st', species_set = ?sp', population = np\<rparr>"
        by (auto split: option.splits sum.splits)
      have "\<forall>k \<in> fst ` set (population g @ ?E). k < genome_indexer (self g)"
        using fresh old kE by auto
      with breed_while_Inr[OF bw] obtain cs where
        "np = (population g @ ?E) @ cs"
        "map fst cs = [genome_indexer (self g) ..<
                         genome_indexer (self g) + nat (?spawn - int (length ?E))]"
        "genome_indexer st' = genome_indexer (self g) + nat (?spawn - int (length ?E))"
        "elitism st' = elitism (self g)"
        by blast
      moreover from this(2) have "length cs = nat (?spawn - int (length ?E))"
        by (metis length_map length_upt add_diff_cancel_left')
      ultimately show ?thesis using ret g'
        by (simp add: offspring_bred_def)
    qed
  qed
qed


text \<open>The loop over the species, when it completes.\<close>

lemma reproduce_all_Inr:
  assumes "reproduce_all e plan g = Some (Inr g')"
    and "distinct (concat (map (\<lambda>x. member_ids (fst (snd (snd x)))) plan))"
    and "\<forall>x \<in> set plan. \<forall>k \<in> set (member_ids (fst (snd (snd x)))).
           k < genome_indexer (self g) \<and> k \<notin> fst ` set (population g)"
    and "\<forall>k \<in> fst ` set (population g). k < genome_indexer (self g)"
    and "distinct (map fst (population g))"
  shows "\<exists>more. population g' = population g @ more
      \<and> length more =
          (\<Sum>x\<leftarrow>plan. if retained (elitism (self g)) (fst x)
                     then length (elites (elitism (self g)) (fst (snd (snd x))))
                          + offspring_bred (elitism (self g)) (fst x) (fst (snd (snd x)))
                     else 0)
      \<and> (\<forall>x \<in> set plan. retained (elitism (self g)) (fst x) \<longrightarrow>
            set (elites (elitism (self g)) (fst (snd (snd x)))) \<subseteq> set more)
      \<and> distinct (map fst (population g'))"
  using assms
proof (induction plan arbitrary: g)
  case Nil
  then show ?case by simp
next
  case (Cons x plan)
  obtain spawn0 sid s f where x: "x = (spawn0, sid, s, f)" by (cases x) auto
  let ?el = "elitism (self g)"
  let ?E = "if retained ?el spawn0 then elites ?el s else []"
  from Cons.prems(1) obtain g1 where
    step: "reproduce_species e (spawn0, sid, s, f) g = Some (Inr g1)"
    and rest: "reproduce_all e plan g1 = Some (Inr g')"
    unfolding x by (auto split: option.splits sum.splits)
  from Cons.prems(2) have dist: "distinct (member_ids s)"
    and dist': "distinct (concat (map (\<lambda>x. member_ids (fst (snd (snd x)))) plan))"
    and apart: "\<forall>y \<in> set plan. set (member_ids s) \<inter> set (member_ids (fst (snd (snd y)))) = {}"
    unfolding x by auto
  from Cons.prems(3) have old: "\<forall>k \<in> set (member_ids s). k < genome_indexer (self g)"
    and disj: "set (member_ids s) \<inter> fst ` set (population g) = {}"
    unfolding x by auto
  from reproduce_species_Inr[OF step dist disj old Cons.prems(4)] obtain cs where
    pop1: "population g1 = population g @ ?E @ cs"
    and cs: "map fst cs = [genome_indexer (self g) ..< genome_indexer (self g1)]"
    and len: "length cs = (if retained ?el spawn0 then offspring_bred ?el spawn0 s else 0)"
    and mono: "genome_indexer (self g) \<le> genome_indexer (self g1)"
    and el1: "elitism (self g1) = ?el"
    by blast
  have kE: "fst ` set ?E \<subseteq> set (member_ids s)" using keys_elites[of ?el s] by auto
  have oldE: "\<forall>k \<in> fst ` set ?E. k < genome_indexer (self g)"
    using old kE by blast
  have kcs: "fst ` set cs = {genome_indexer (self g) ..< genome_indexer (self g1)}"
    using cs by (metis set_map set_upt)
  have keys1: "fst ` set (population g1)
      = fst ` set (population g) \<union> fst ` set ?E
        \<union> {genome_indexer (self g) ..< genome_indexer (self g1)}"
    unfolding pop1 using kcs by (simp add: image_Un Un_assoc)
  have p3: "\<forall>y \<in> set plan. \<forall>k \<in> set (member_ids (fst (snd (snd y)))).
           k < genome_indexer (self g1) \<and> k \<notin> fst ` set (population g1)"
  proof (intro ballI)
    fix y k assume y: "y \<in> set plan" and k: "k \<in> set (member_ids (fst (snd (snd y))))"
    from Cons.prems(3) y k have a: "k < genome_indexer (self g)" "k \<notin> fst ` set (population g)"
      by auto
    from apart y k have "k \<notin> set (member_ids s)" by auto
    with kE have "k \<notin> fst ` set ?E" by blast
    with a mono show "k < genome_indexer (self g1) \<and> k \<notin> fst ` set (population g1)"
      unfolding keys1 by auto
  qed
  have p4: "\<forall>k \<in> fst ` set (population g1). k < genome_indexer (self g1)"
    unfolding keys1 using Cons.prems(4) oldE mono by fastforce
  have dE: "distinct (map fst ?E)" using distinct_keys_elites[OF dist, of ?el] by simp
  have p5: "distinct (map fst (population g1))"
  proof -
    have "distinct (map fst cs)" unfolding cs by simp
    moreover have "fst ` set (population g) \<inter> fst ` set ?E = {}" using disj kE by blast
    moreover have "fst ` set (population g) \<inter> fst ` set cs = {}"
      unfolding kcs using Cons.prems(4) by auto
    moreover have "fst ` set ?E \<inter> fst ` set cs = {}"
      unfolding kcs using oldE by fastforce
    ultimately show ?thesis
      unfolding pop1 using Cons.prems(5) dE by (simp add: Int_Un_distrib)
  qed
  from Cons.IH[OF rest dist' p3 p4 p5] obtain more where
    more: "population g' = population g1 @ more"
    and lmore: "length more =
          (\<Sum>x\<leftarrow>plan. if retained ?el (fst x)
                     then length (elites ?el (fst (snd (snd x))))
                          + offspring_bred ?el (fst x) (fst (snd (snd x)))
                     else 0)"
    and emore: "\<forall>x \<in> set plan. retained ?el (fst x) \<longrightarrow>
            set (elites ?el (fst (snd (snd x)))) \<subseteq> set more"
    and dmore: "distinct (map fst (population g'))"
    unfolding el1 by blast
  show ?case
  proof (intro exI[of _ "?E @ cs @ more"] conjI)
    show "population g' = population g @ ?E @ cs @ more" by (simp add: more pop1)
    show "length (?E @ cs @ more) =
          (\<Sum>x\<leftarrow>x # plan. if retained ?el (fst x)
                     then length (elites ?el (fst (snd (snd x))))
                          + offspring_bred ?el (fst x) (fst (snd (snd x)))
                     else 0)"
      unfolding x by (simp add: len lmore)
    show "\<forall>x \<in> set (x # plan). retained ?el (fst x) \<longrightarrow>
            set (elites ?el (fst (snd (snd x)))) \<subseteq> set (?E @ cs @ more)"
      unfolding x using emore by auto
    show "distinct (map fst (population g'))" by (rule dmore)
  qed
qed


subsection \<open>Rounding and normalisation\<close>

lemma py_round_close: "\<bar>real_of_int (py_round x) - x\<bar> \<le> 1 / 2"
proof -
  have "real_of_int \<lfloor>x\<rfloor> \<le> x" "x < real_of_int \<lfloor>x\<rfloor> + 1" by linarith+
  then show ?thesis by (auto simp: py_round_def Let_def)
qed

lemma py_round_nonneg: "0 \<le> x \<Longrightarrow> 0 \<le> py_round x"
proof -
  assume "0 \<le> x"
  then have "0 \<le> \<lfloor>x\<rfloor>" by simp
  then show ?thesis by (auto simp: py_round_def Let_def)
qed

lemma sum_py_round_close:
  "\<bar>(\<Sum>x\<leftarrow>xs. real_of_int (py_round (h x))) - (\<Sum>x\<leftarrow>xs. h x)\<bar> \<le> real (length xs) / 2"
proof (induction xs)
  case Nil
  show ?case by simp
next
  case (Cons y ys)
  have "\<bar>(real_of_int (py_round (h y)) - h y)
          + ((\<Sum>x\<leftarrow>ys. real_of_int (py_round (h x))) - (\<Sum>x\<leftarrow>ys. h x))\<bar>
        \<le> 1 / 2 + real (length ys) / 2"
    using py_round_close[of "h y"] Cons.IH by linarith
  then show ?case by (simp add: algebra_simps)
qed

lemma sum_list_scaled:
  fixes c :: real
  shows "(\<Sum>x\<leftarrow>xs. x * c) = sum_list xs * c"
  by (induction xs) (simp_all add: distrib_right)

lemma raw_spawn_pos: "members (fst (snd x)) \<noteq> [] \<Longrightarrow> 0 < raw_spawn avg x"
  by (cases x) (simp add: raw_spawn_def)

lemma sum_list_pos_real:
  fixes xs :: "real list"
  shows "xs \<noteq> [] \<Longrightarrow> \<forall>x \<in> set xs. 0 < x \<Longrightarrow> 0 < sum_list xs"
proof (induction xs)
  case Nil
  then show ?case by simp
next
  case (Cons y ys)
  show ?case
  proof (cases "ys = []")
    case True
    with Cons.prems show ?thesis by simp
  next
    case False
    with Cons have "0 < sum_list ys" by simp
    with Cons.prems show ?thesis by simp
  qed
qed

text \<open>
  Lines 69 to 88 on species that all have members: the total weight is positive, so the
  normalisation divides by a positive number, and the amounts are the rounded shares.
\<close>

lemma spawn_amounts_Inr:
  assumes "sf \<noteq> []" and "\<forall>x \<in> set sf. members (fst (snd x)) \<noteq> []"
  shows "\<exists>avg. 0 < sum_list (map (raw_spawn avg) sf)
      \<and> spawn_amounts reps sf a pop_size =
          Inr (reps @ [Info_average avg,
                       Info_spawn_amounts
                         (map (\<lambda>n. py_round (n * (real_of_int pop_size
                                / sum_list (map (raw_spawn avg) sf))))
                              (map (raw_spawn avg) sf)),
                       Info_species_fitness (map (\<lambda>x. snd (snd x)) sf)],
               map (\<lambda>n. py_round (n * (real_of_int pop_size
                                / sum_list (map (raw_spawn avg) sf))))
                   (map (raw_spawn avg) sf))"
proof -
  let ?avg = "a / real (length sf)"
  have pos: "0 < sum_list (map (raw_spawn ?avg) sf)"
    using assms by (intro sum_list_pos_real) (auto intro: raw_spawn_pos)
  moreover from assms(1) have "real (length sf) \<noteq> 0" by simp
  ultimately show ?thesis
    by (intro exI[of _ ?avg]) (simp add: spawn_amounts_def py_div_def Let_def)
qed

lemma real_of_int_sum_list:
  "real_of_int (\<Sum>x\<leftarrow>xs. h x) = (\<Sum>x\<leftarrow>xs. real_of_int (h x))"
  by (induction xs) simp_all

lemma amounts_close:
  fixes raw :: "real list"
  assumes "0 < sum_list raw"
  shows "\<bar>real_of_int (\<Sum>n\<leftarrow>raw. py_round (n * (p / sum_list raw))) - p\<bar>
           \<le> real (length raw) / 2"
proof -
  have "(\<Sum>n\<leftarrow>raw. n * (p / sum_list raw)) = sum_list raw * (p / sum_list raw)"
    by (rule sum_list_scaled)
  with assms have "(\<Sum>n\<leftarrow>raw. n * (p / sum_list raw)) = p" by simp
  moreover have "real_of_int (\<Sum>n\<leftarrow>raw. py_round (n * (p / sum_list raw)))
      = (\<Sum>n\<leftarrow>raw. real_of_int (py_round (n * (p / sum_list raw))))"
    by (rule real_of_int_sum_list)
  ultimately show ?thesis
    using sum_py_round_close[of "\<lambda>n. n * (p / sum_list raw)" raw] by simp
qed


subsection \<open>A completed call\<close>

lemma reproduce_Inr:
  assumes r: "reproduce e st species pop_size = Some (Inr g)"
    and act: "active (stagnation_update e species) \<noteq> []"
  obtains reps' raw where
    "length raw = length (active (stagnation_update e species))"
    and "0 < sum_list raw"
    and "\<forall>n \<in> set raw. 0 \<le> n"
    and "\<forall>x \<in> set (active (stagnation_update e species)). members (snd x) \<noteq> []"
    and "allotment e st species pop_size =
           zip (map (\<lambda>n. py_round (n * (real_of_int pop_size / sum_list raw))) raw)
               (map (\<lambda>x. (fst x, snd x, shared_fitness (snd x)))
                    (active (stagnation_update e species)))"
    and "reproduce_all e (allotment e st species pop_size)
           \<lparr>self = st\<lparr>reporters := reps'\<rparr>, species_set = [], population = []\<rparr> = Some (Inr g)"
proof -
  let ?feed = "stagnation_update e species"
  let ?sf = "map (\<lambda>x. (fst x, snd x, shared_fitness (snd x))) (active ?feed)"
  from r obtain reps n sf a where
    fs: "filter_stagnated ?feed (reporters st, 0, [], 0) = Inr (reps, n, sf, a)"
    by (cases "filter_stagnated ?feed (reporters st, 0, [], 0)")
       (auto simp: reproduce_def)
  from filter_stagnated_Inr[OF fs] have sf: "sf = ?sf"
    and n: "n = length (active ?feed)"
    and ne: "\<forall>x \<in> set (active ?feed). members (snd x) \<noteq> []"
    by simp_all
  from act have sf_ne: "?sf \<noteq> []" by simp
  from ne have "\<forall>x \<in> set ?sf. members (fst (snd x)) \<noteq> []" by simp
  from spawn_amounts_Inr[OF sf_ne this, of reps a pop_size] obtain avg where
    pos: "0 < sum_list (map (raw_spawn avg) ?sf)"
    and sa: "spawn_amounts reps ?sf a pop_size =
          Inr (reps @ [Info_average avg,
                       Info_spawn_amounts
                         (map (\<lambda>n. py_round (n * (real_of_int pop_size
                                / sum_list (map (raw_spawn avg) ?sf))))
                              (map (raw_spawn avg) ?sf)),
                       Info_species_fitness (map (\<lambda>x. snd (snd x)) ?sf)],
               map (\<lambda>n. py_round (n * (real_of_int pop_size
                                / sum_list (map (raw_spawn avg) ?sf))))
                   (map (raw_spawn avg) ?sf))"
    by blast
  let ?raw = "map (raw_spawn avg) ?sf"
  let ?amounts = "map (\<lambda>n. py_round (n * (real_of_int pop_size / sum_list ?raw))) ?raw"
  have al: "allotment e st species pop_size = zip ?amounts ?sf"
    by (simp only: allotment_def fs sum.case prod.case sf sa)
  from act n have "n \<noteq> 0" by simp
  with r have "\<exists>reps'. reproduce_all e (zip ?amounts ?sf)
           \<lparr>self = st\<lparr>reporters := reps'\<rparr>, species_set = [], population = []\<rparr> = Some (Inr g)"
    by (simp only: reproduce_def fs sum.case prod.case sf sa) (auto split: if_splits)
  then obtain reps' where "reproduce_all e (allotment e st species pop_size)
           \<lparr>self = st\<lparr>reporters := reps'\<rparr>, species_set = [], population = []\<rparr> = Some (Inr g)"
    unfolding al by blast
  moreover have "length ?raw = length (active ?feed)" by simp
  moreover have "\<forall>n \<in> set ?raw. 0 \<le> n" by (auto intro: raw_spawn_nonneg)
  ultimately show ?thesis using that pos ne al by blast
qed

subsection \<open>The size of the population\<close>

lemma species_yield:
  assumes "retained el spawn0"
  shows "int (length (elites el s) + offspring_bred el spawn0 s) = max spawn0 el"
proof (cases "0 < el")
  case True
  from length_elites_le[OF this, of s] have "int (length (elites el s)) \<le> max spawn0 el"
    by linarith
  then show ?thesis by (simp add: offspring_bred_def)
next
  case False
  with assms show ?thesis by (simp add: offspring_bred_def elites_def retained_def)
qed

lemma int_sum_list: "int (\<Sum>x\<leftarrow>xs. h x) = (\<Sum>x\<leftarrow>xs. int (h x))"
  by (induction xs) simp_all

lemma floor_sum_bounds:
  assumes "\<forall>a \<in> set as. 0 \<le> a"
  shows "sum_list as \<le> (\<Sum>a\<leftarrow>as. max 0 (max a el))
       \<and> (\<Sum>a\<leftarrow>as. max 0 (max a el)) \<le> sum_list as + int (length as) * max 0 el"
  using assms
proof (induction as)
  case Nil
  show ?case by simp
next
  case (Cons a as)
  then have "0 \<le> a" and IH: "sum_list as \<le> (\<Sum>a\<leftarrow>as. max 0 (max a el))"
      "(\<Sum>a\<leftarrow>as. max 0 (max a el)) \<le> sum_list as + int (length as) * max 0 el"
    by simp_all
  have step: "a \<le> max 0 (max a el)" "max 0 (max a el) \<le> a + max 0 el"
    using \<open>0 \<le> a\<close> by auto
  have unfold: "(\<Sum>a\<leftarrow>a # as. max 0 (max a el)) = max 0 (max a el) + (\<Sum>a\<leftarrow>as. max 0 (max a el))"
    "sum_list (a # as) = a + sum_list as"
    "int (length (a # as)) * max 0 el = max 0 el + int (length as) * max 0 el"
    by (simp_all add: distrib_right)
  from step IH show ?case unfolding unfold by linarith
qed

lemma plan_components:
  assumes "length amounts = length A"
  shows "map fst (zip amounts (map (\<lambda>x. (fst x, snd x, h x)) A)) = amounts"
    and "map (\<lambda>x. fst (snd (snd x))) (zip amounts (map (\<lambda>x. (fst x, snd x, h x)) A))
           = map snd A"
  using assms by (induction amounts A rule: list_induct2) simp_all

text \<open>What a completed call with at least one surviving species has done.\<close>

lemma reproduce_population:
  assumes r: "reproduce e st species pop_size = Some (Inr g)"
    and wf: "well_formed_ids st (stagnation_update e species)"
    and act: "active (stagnation_update e species) \<noteq> []"
  shows "length (population g) =
           (\<Sum>x\<leftarrow>allotment e st species pop_size.
              if retained (elitism st) (fst x)
              then length (elites (elitism st) (fst (snd (snd x))))
                   + offspring_bred (elitism st) (fst x) (fst (snd (snd x)))
              else 0)"
    and "\<forall>x \<in> set (allotment e st species pop_size). retained (elitism st) (fst x) \<longrightarrow>
            set (elites (elitism st) (fst (snd (snd x)))) \<subseteq> set (population g)"
    and "distinct (map fst (population g))"
    and "map (\<lambda>x. fst (snd (snd x))) (allotment e st species pop_size)
           = map snd (active (stagnation_update e species))"
proof -
  let ?A = "active (stagnation_update e species)"
  let ?plan = "allotment e st species pop_size"
  obtain reps' raw where
    len: "length raw = length ?A"
    and pos: "0 < sum_list raw"
    and raw0: "\<forall>n \<in> set raw. 0 \<le> n"
    and ne: "\<forall>x \<in> set ?A. members (snd x) \<noteq> []"
    and al: "?plan =
           zip (map (\<lambda>n. py_round (n * (real_of_int pop_size / sum_list raw))) raw)
               (map (\<lambda>x. (fst x, snd x, shared_fitness (snd x))) ?A)"
    and ra: "reproduce_all e ?plan
           \<lparr>self = st\<lparr>reporters := reps'\<rparr>, species_set = [], population = []\<rparr> = Some (Inr g)"
    by (rule reproduce_Inr[OF r act])
  let ?g0 = "\<lparr>self = st\<lparr>reporters := reps'\<rparr>, species_set = [], population = []\<rparr>"
  have sp: "map (\<lambda>x. fst (snd (snd x))) ?plan = map snd ?A"
    unfolding al by (rule plan_components(2)) (simp add: len)
  have "map (\<lambda>x. member_ids (fst (snd (snd x)))) ?plan
          = map member_ids (map (\<lambda>x. fst (snd (snd x))) ?plan)"
    by simp
  also have "\<dots> = map (\<lambda>x. member_ids (snd x)) ?A" unfolding sp by simp
  finally have ids: "map (\<lambda>x. member_ids (fst (snd (snd x)))) ?plan
          = map (\<lambda>x. member_ids (snd x)) ?A" .
  from wf have h2: "distinct (concat (map (\<lambda>x. member_ids (fst (snd (snd x)))) ?plan))"
    unfolding ids by (simp add: well_formed_ids_def)
  have h3: "\<forall>x \<in> set ?plan. \<forall>k \<in> set (member_ids (fst (snd (snd x)))).
           k < genome_indexer (self ?g0) \<and> k \<notin> fst ` set (population ?g0)"
  proof (intro ballI)
    fix x k assume x: "x \<in> set ?plan" and k: "k \<in> set (member_ids (fst (snd (snd x))))"
    from x have "fst (snd (snd x)) \<in> set (map (\<lambda>x. fst (snd (snd x))) ?plan)" by simp
    then obtain y where "y \<in> set ?A" "snd y = fst (snd (snd x))" unfolding sp by auto
    with wf k show "k < genome_indexer (self ?g0) \<and> k \<notin> fst ` set (population ?g0)"
      by (auto simp: well_formed_ids_def)
  qed
  have p4: "\<forall>k \<in> fst ` set (population ?g0). k < genome_indexer (self ?g0)" by simp
  have p5: "distinct (map fst (population ?g0))" by simp
  have g0: "elitism (self ?g0) = elitism st" "population ?g0 = []" by simp_all
  note R = reproduce_all_Inr[OF ra h2 h3 p4 p5, unfolded g0 append_Nil]
  from R obtain more where
    "population g = more"
    "length more =
          (\<Sum>x\<leftarrow>?plan. if retained (elitism st) (fst x)
                     then length (elites (elitism st) (fst (snd (snd x))))
                          + offspring_bred (elitism st) (fst x) (fst (snd (snd x)))
                     else 0)"
    "\<forall>x \<in> set ?plan. retained (elitism st) (fst x) \<longrightarrow>
            set (elites (elitism st) (fst (snd (snd x)))) \<subseteq> set more"
    "distinct (map fst (population g))"
    by blast
  then show "length (population g) =
           (\<Sum>x\<leftarrow>?plan.
              if retained (elitism st) (fst x)
              then length (elites (elitism st) (fst (snd (snd x))))
                   + offspring_bred (elitism st) (fst x) (fst (snd (snd x)))
              else 0)"
    and "\<forall>x \<in> set ?plan. retained (elitism st) (fst x) \<longrightarrow>
            set (elites (elitism st) (fst (snd (snd x)))) \<subseteq> set (population g)"
    and "distinct (map fst (population g))"
    by simp_all
  show "map (\<lambda>x. fst (snd (snd x))) ?plan = map snd ?A" by (rule sp)
qed

text \<open>
  Claim C3, as the code has it. For a call that completes with at least one surviving
  species, a target size that is not negative and well-formed identifiers, the population
  returned has one genome for every elite copied and every offspring bred in the retained
  species; its size is at least the target minus the number of surviving species, and at
  most the target plus that number plus the elitism for every surviving species: the
  floor \<^verbatim>\<open>max(spawn, self.elitism)\<close> of line 94 can raise every species' share by up to
  the elitism.
\<close>

theorem population_size_near_target:
  assumes r: "reproduce e st species pop_size = Some (Inr g)"
    and wf: "well_formed_ids st (stagnation_update e species)"
    and act: "active (stagnation_update e species) \<noteq> []"
    and nonneg: "0 \<le> pop_size"
  shows "length (population g) =
           (\<Sum>x\<leftarrow>allotment e st species pop_size.
              if retained (elitism st) (fst x)
              then length (elites (elitism st) (fst (snd (snd x))))
                   + offspring_bred (elitism st) (fst x) (fst (snd (snd x)))
              else 0)
       \<and> pop_size - int (length (active (stagnation_update e species)))
           \<le> int (length (population g))
       \<and> int (length (population g))
           \<le> pop_size + int (length (active (stagnation_update e species)))
              + int (length (active (stagnation_update e species))) * max 0 (elitism st)"
proof -
  let ?A = "active (stagnation_update e species)"
  let ?plan = "allotment e st species pop_size"
  let ?el = "elitism st"
  note size = reproduce_population(1)[OF r wf act]
  obtain reps' raw where
    len: "length raw = length ?A"
    and pos: "0 < sum_list raw"
    and raw0: "\<forall>n \<in> set raw. 0 \<le> n"
    and ne: "\<forall>x \<in> set ?A. members (snd x) \<noteq> []"
    and al: "?plan =
           zip (map (\<lambda>n. py_round (n * (real_of_int pop_size / sum_list raw))) raw)
               (map (\<lambda>x. (fst x, snd x, shared_fitness (snd x))) ?A)"
    and ra: "reproduce_all e ?plan
           \<lparr>self = st\<lparr>reporters := reps'\<rparr>, species_set = [], population = []\<rparr> = Some (Inr g)"
    by (rule reproduce_Inr[OF r act])
  let ?amounts = "map (\<lambda>n. py_round (n * (real_of_int pop_size / sum_list raw))) raw"
  have am: "map fst ?plan = ?amounts"
    unfolding al by (rule plan_components(1)) (simp add: len)
  have yield: "int (if retained ?el (fst x)
              then length (elites ?el (fst (snd (snd x))))
                   + offspring_bred ?el (fst x) (fst (snd (snd x)))
              else 0) = max 0 (max (fst x) ?el)" for x :: "int \<times> nat \<times> species \<times> real"
    using species_yield[of ?el "fst x" "fst (snd (snd x))"] by (auto simp: retained_def)
  have "int (length (population g)) =
          (\<Sum>x\<leftarrow>?plan. int (if retained ?el (fst x)
              then length (elites ?el (fst (snd (snd x))))
                   + offspring_bred ?el (fst x) (fst (snd (snd x)))
              else 0))"
    unfolding size by (rule int_sum_list)
  also have "\<dots> = (\<Sum>x\<leftarrow>?plan. max 0 (max (fst x) ?el))"
    by (simp only: yield)
  also have "\<dots> = (\<Sum>a\<leftarrow>map fst ?plan. max 0 (max a ?el))" by (simp add: o_def)
  finally have total: "int (length (population g)) = (\<Sum>a\<leftarrow>?amounts. max 0 (max a ?el))"
    unfolding am .
  have "\<forall>a \<in> set ?amounts. 0 \<le> a"
    using raw0 pos nonneg by (auto intro!: py_round_nonneg)
  from floor_sum_bounds[OF this, of ?el] have
    lo: "sum_list ?amounts \<le> int (length (population g))"
    and hi: "int (length (population g))
              \<le> sum_list ?amounts + int (length ?A) * max 0 ?el"
    unfolding total by (simp_all add: len)
  from amounts_close[OF pos, of pop_size] have
    "\<bar>real_of_int (sum_list ?amounts) - real_of_int pop_size\<bar> \<le> real (length ?A) / 2"
    by (simp add: len o_def)
  then have "real_of_int pop_size - real (length ?A) \<le> real_of_int (sum_list ?amounts)"
    and "real_of_int (sum_list ?amounts) \<le> real_of_int pop_size + real (length ?A)"
    by linarith+
  then have "pop_size - int (length ?A) \<le> sum_list ?amounts"
    and "sum_list ?amounts \<le> pop_size + int (length ?A)"
    by linarith+
  with lo hi size show ?thesis by simp
qed

subsection \<open>Elitism\<close>



subsection \<open>The scenario as a witness\<close>

lemma scenario_returns:
  "\<exists>g. reproduce (cloning_env none_stagnant) (fresh_reproduction 1 (1 / 2) 6)
          [(1, species_A), (2, species_B)] 6 = Some (Inr g)"
  by (simp add: reproduce_def cloning_env_def none_stagnant_def species_A_def species_B_def
      fresh_reproduction_def adjusted_fitness_def py_div_def
      spawn_amounts_def raw_spawn_def py_round_def Let_def reproduce_species_def
      sort_members_def breeding_pool_def breed_while.simps breed_def get_next_def random_choice_def
      genome_of_def)

lemma scenario_active:
  "active (stagnation_update (cloning_env none_stagnant) [(1, species_A), (2, species_B)])
     = [(1, species_A), (2, species_B)]"
  by (simp add: active_def cloning_env_def none_stagnant_def)

lemma scenario_well_formed:
  "well_formed_ids (fresh_reproduction 1 (1 / 2) 6)
     (stagnation_update (cloning_env none_stagnant) [(1, species_A), (2, species_B)])"
  unfolding well_formed_ids_def scenario_active
  by (simp add: member_ids_def species_A_def species_B_def fresh_reproduction_def)

theorem population_size_near_target_witness:
  "\<exists>g. reproduce (cloning_env none_stagnant) (fresh_reproduction 1 (1 / 2) 6)
          [(1, species_A), (2, species_B)] 6 = Some (Inr g)
     \<and> length (population g) =
           (\<Sum>x\<leftarrow>allotment (cloning_env none_stagnant) (fresh_reproduction 1 (1 / 2) 6)
                   [(1, species_A), (2, species_B)] 6.
              if retained 1 (fst x)
              then length (elites 1 (fst (snd (snd x)))) + offspring_bred 1 (fst x) (fst (snd (snd x)))
              else 0)
     \<and> 6 - 2 \<le> int (length (population g))
     \<and> int (length (population g)) \<le> 6 + 2 + 2 * max 0 1"
proof -
  from scenario_returns obtain g where
    r: "reproduce (cloning_env none_stagnant) (fresh_reproduction 1 (1 / 2) 6)
          [(1, species_A), (2, species_B)] 6 = Some (Inr g)" ..
  have act: "active (stagnation_update (cloning_env none_stagnant)
                       [(1, species_A), (2, species_B)]) \<noteq> []"
    unfolding scenario_active by simp
  have el: "elitism (fresh_reproduction 1 (1 / 2) 6) = 1" by (simp add: fresh_reproduction_def)
  from population_size_near_target[OF r scenario_well_formed act] r
  show ?thesis unfolding scenario_active el by auto
qed


text \<open>
  Claim C3 as the specification states it fails: one species of one member, target size 1
  and \<^verbatim>\<open>elitism = 3\<close> give a population of 3, which is not within 1 of the target.
\<close>

theorem elitism_floor_counterexample:
  "reproduce (cloning_env none_stagnant) (fresh_reproduction 3 (1 / 2) 2) [(1, lone_species)] 1 =
       Some (Inr \<lparr>self = \<lparr>elitism = 3, survival_threshold = 1 / 2,
                   reporters = [Info_average 7, Info_spawn_amounts [1], Info_species_fitness [7]],
                   genome_indexer = 4, ancestors = [(2, [1, 1]), (3, [1, 1])], rng = 4\<rparr>,
                 species_set = [(1, \<lparr>members = []\<rparr>)],
                 population = [(1, genome_of 7), (2, genome_of 7), (3, genome_of 7)]\<rparr>)
   \<and> \<not> \<bar>int (length [(1 :: nat, genome_of 7), (2, genome_of 7), (3, genome_of 7)]) - 1\<bar>
        \<le> int (length (active (none_stagnant [(1, lone_species)])))"
  by (simp add: reproduce_def cloning_env_def none_stagnant_def fresh_reproduction_def
      lone_species_def genome_of_def adjusted_fitness_def py_div_def spawn_amounts_def
      raw_spawn_def py_round_def Let_def reproduce_species_def sort_members_def
      breeding_pool_def breed_while.simps breed_def get_next_def random_choice_def active_def)

end
